theory Spec2Isabelle
  imports Main
begin

section \<open>Token model (interpreter.js, lines 38-157)\<close>

text \<open>
  The members of the frozen \<open>TokenType\<close> table. In the source every member is a string;
  \<open>DIVIDE\<close> and \<open>SLASH\<close> are both the string \<open>/\<close> there, and the lexer only ever uses
  \<open>SLASH\<close>. The last constructor is not a member of the table: it stands for the value
  found under a name on \<open>Object.prototype\<close> (a function or an object, never a string),
  which is what the property read \<open>KEYWORDS[value]\<close> yields for such a name.
\<close>

datatype TokenType =
    EOF | IDENTIFIER | NUMBER | STRING | BOOLEAN | NULL
  | NAME_APP_MINI | WEB_PACKAGE_MINI | WEB_MINI_VERSION | MINI_VERSION | MINI_APP_ICON
  | BODY | STYLE | CALL
  | FUNC | RETURN | IF | ELSE | FOR | WHILE | BREAK | CONTINUE | LET | CONST_KW
  | ASSIGN | PLUS | MINUS | MULTIPLY | DIVIDE | MODULO
  | EQ | NEQ | LT | GT | LE | GE | AND | OR | NOT
  | LPAREN | RPAREN | LBRACE | RBRACE | LBRACKET | RBRACKET
  | COMMA | SEMICOLON | COLON | DOT | AT | SLASH
  | ObjectPrototypeMember string

datatype Token = Token (tokType: TokenType) (tokValue: string) (tokLine: nat) (tokColumn: nat)

text \<open>The arguments of the \<open>LexerError\<close> constructor: message, line, column.\<close>

datatype LexerError = LexerError (errMessage: string) (errLine: nat) (errColumn: nat)

text \<open>
  What \<open>peek\<close>, \<open>advance\<close> and an indexed read of the source return: a one-character
  string, \<open>null\<close> (end of input), or \<open>undefined\<close> (an index past the end).
\<close>

datatype jschar = JsNull | JsUndefined | JsChar char

text \<open>String conversion, as performed by \<open>value += ...\<close> and by template literals.\<close>

fun str_of :: "jschar \<Rightarrow> string" where
  "str_of JsNull = ''null''"
| "str_of JsUndefined = ''undefined''"
| "str_of (JsChar c) = [c]"

text \<open>
  The own properties of \<open>KEYWORDS\<close>, in source order, and the property names every
  object literal inherits from \<open>Object.prototype\<close>. \<open>KEYWORDS\<close> is an object literal, so
  \<open>KEYWORDS[value]\<close> walks the prototype chain: it yields the table entry for an own
  property, the inherited member for a name of \<open>Object.prototype\<close>, and \<open>undefined\<close>
  (here \<open>None\<close>) otherwise.
\<close>

definition KEYWORDS :: "(string \<times> TokenType) list" where
  "KEYWORDS =
    [(''name_app_mini'', NAME_APP_MINI),
     (''web_package_mini'', WEB_PACKAGE_MINI),
     (''web_mini_version'', WEB_MINI_VERSION),
     (''mini_version'', MINI_VERSION),
     (''mini_app_icon'', MINI_APP_ICON),
     (''body'', BODY),
     (''style'', STYLE),
     (''Call'', CALL),
     (''func'', FUNC),
     (''return'', RETURN),
     (''if'', IF),
     (''else'', ELSE),
     (''for'', FOR),
     (''while'', WHILE),
     (''break'', BREAK),
     (''continue'', CONTINUE),
     (''let'', LET),
     (''const'', CONST_KW),
     (''true'', BOOLEAN),
     (''false'', BOOLEAN),
     (''null'', NULL)]"

definition Object_prototype_names :: "string list" where
  "Object_prototype_names =
    [''constructor'', ''hasOwnProperty'', ''isPrototypeOf'', ''propertyIsEnumerable'',
     ''toLocaleString'', ''toString'', ''valueOf'', ''__proto__'',
     ''__defineGetter__'', ''__defineSetter__'', ''__lookupGetter__'', ''__lookupSetter__'']"

definition KEYWORDS_get :: "string \<Rightarrow> TokenType option" where
  "KEYWORDS_get v =
    (case map_of KEYWORDS v of
       Some t \<Rightarrow> Some t
     | None \<Rightarrow> if v \<in> set Object_prototype_names then Some (ObjectPrototypeMember v) else None)"

section \<open>Lexer state and character tests (lines 180-266)\<close>

record Lexer =
  source :: string
  currentPos :: nat
  line :: nat
  column :: nat
  tokens :: "Token list"

definition Lexer_new :: "string \<Rightarrow> Lexer" where
  "Lexer_new src = \<lparr>source = src, currentPos = 0, line = 1, column = 1, tokens = []\<rparr>"

text \<open>\<open>this.source[i]\<close>: \<open>undefined\<close> past the end.\<close>

definition source_at :: "Lexer \<Rightarrow> nat \<Rightarrow> jschar" where
  "source_at L i = (if i < length (source L) then JsChar (source L ! i) else JsUndefined)"

definition peek :: "Lexer \<Rightarrow> jschar" where
  "peek L = (if currentPos L < length (source L) then JsChar (source L ! currentPos L) else JsNull)"

definition advance :: "Lexer \<Rightarrow> jschar \<times> Lexer" where
  "advance L =
    (if currentPos L \<ge> length (source L) then (JsNull, L)
     else
       let c = source L ! currentPos L;
           L1 = L\<lparr>currentPos := currentPos L + 1\<rparr>
       in if c = CHR 0x0A
          then (JsChar c, L1\<lparr>line := line L1 + 1, column := 1\<rparr>)
          else (JsChar c, L1\<lparr>column := column L1 + 1\<rparr>))"

definition addToken :: "TokenType \<Rightarrow> string \<Rightarrow> nat \<Rightarrow> nat \<Rightarrow> Lexer \<Rightarrow> Lexer" where
  "addToken ty v startLine startColumn L = L\<lparr>tokens := tokens L @ [Token ty v startLine startColumn]\<rparr>"

fun isWhitespace :: "jschar \<Rightarrow> bool" where
  "isWhitespace (JsChar c) = (c = CHR '' '' \<or> c = CHR 0x09 \<or> c = CHR 0x0A \<or> c = CHR 0x0D)"
| "isWhitespace _ = False"

text \<open>
  \<open>char >= '0' && char <= '9'\<close>. On a one-character string both comparisons are string
  comparisons, by code unit. On \<open>null\<close> they are numeric: \<open>null\<close> converts to 0, \<open>'0'\<close>
  to 0 and \<open>'9'\<close> to 9, so the test is true. On \<open>undefined\<close> the left side converts
  to NaN and both comparisons are false.
\<close>

fun isDigit :: "jschar \<Rightarrow> bool" where
  "isDigit (JsChar c) = (of_char (CHR ''0'') \<le> (of_char c :: nat) \<and> (of_char c :: nat) \<le> of_char (CHR ''9''))"
| "isDigit JsNull = True"
| "isDigit JsUndefined = False"

text \<open>
  \<open>(char >= 'a' && char <= 'z') || (char >= 'A' && char <= 'Z')\<close>. On \<open>null\<close> and
  \<open>undefined\<close> the right-hand strings convert to NaN, so every comparison is false.
\<close>

fun isAlpha :: "jschar \<Rightarrow> bool" where
  "isAlpha (JsChar c) =
    ((of_char (CHR ''a'') \<le> (of_char c :: nat) \<and> (of_char c :: nat) \<le> of_char (CHR ''z'')) \<or>
     (of_char (CHR ''A'') \<le> (of_char c :: nat) \<and> (of_char c :: nat) \<le> of_char (CHR ''Z'')))"
| "isAlpha _ = False"

definition isAlphaNumeric :: "jschar \<Rightarrow> bool" where
  "isAlphaNumeric ch = (isAlpha ch \<or> isDigit ch \<or> ch = JsChar (CHR ''_''))"

section \<open>Whitespace and comments (lines 271-319)\<close>

lemma advance_measure:
  "peek L \<noteq> JsNull \<Longrightarrow>
     length (source (snd (advance L))) - currentPos (snd (advance L)) < length (source L) - currentPos L"
  by (auto simp: peek_def advance_def Let_def split: if_splits)

function skipWhitespace :: "Lexer \<Rightarrow> Lexer" where
  "skipWhitespace L = (if isWhitespace (peek L) then skipWhitespace (snd (advance L)) else L)"
  by pat_completeness auto
termination
proof (relation "measure (\<lambda>L. length (source L) - currentPos L)")
  show "wf (measure (\<lambda>L. length (source L) - currentPos L))" by simp
next
  fix L assume "isWhitespace (peek L)"
  then have "peek L \<noteq> JsNull" by auto
  then show "(snd (advance L), L) \<in> measure (\<lambda>L. length (source L) - currentPos L)"
    using advance_measure by simp
qed

declare skipWhitespace.simps [simp del]

text \<open>The loop of a \<open>//\<close> comment: up to, not including, the next newline or the end.\<close>

function readComment_line :: "Lexer \<Rightarrow> Lexer" where
  "readComment_line L =
    (if peek L \<noteq> JsNull \<and> peek L \<noteq> JsChar (CHR 0x0A) then readComment_line (snd (advance L)) else L)"
  by pat_completeness auto
termination
  by (relation "measure (\<lambda>L. length (source L) - currentPos L)") (simp_all add: advance_measure)

declare readComment_line.simps [simp del]

text \<open>
  The loop of a \<open>/* */\<close> comment. \<open>Some\<close> is the state in which the source returns true;
  \<open>None\<close> is the exit of the loop at end of input, after which the source throws.
\<close>

function readComment_block :: "Lexer \<Rightarrow> Lexer option" where
  "readComment_block L =
    (if peek L \<noteq> JsNull then
       (let char = fst (advance L); L1 = snd (advance L) in
        if char = JsChar (CHR ''*'') \<and> peek L1 = JsChar (CHR ''/'')
        then Some (snd (advance (snd (advance L1))))
        else readComment_block L1)
     else None)"
  by pat_completeness auto
termination
  by (relation "measure (\<lambda>L. length (source L) - currentPos L)") (simp_all add: advance_measure)

declare readComment_block.simps [simp del]

definition readComment :: "Lexer \<Rightarrow> LexerError + (bool \<times> Lexer)" where
  "readComment L =
    (let startLine = line L; startColumn = column L in
     if peek L = JsChar (CHR ''/'') then
       (let L1 = snd (advance L) in
        if peek L1 = JsChar (CHR ''/'') then
          Inr (True, readComment_line (snd (advance L1)))
        else if peek L1 = JsChar (CHR ''*'') then
          (case readComment_block (snd (advance L1)) of
             Some L2 \<Rightarrow> Inr (True, L2)
           | None \<Rightarrow> Inl (LexerError ''Unterminated multi-line comment'' startLine startColumn))
        else
          (let L2 = L1\<lparr>currentPos := currentPos L1 - 1\<rparr> in
           if startColumn = 1 \<and> line L2 > 1
           then Inr (False, L2\<lparr>line := line L2 - 1\<rparr>)
           else Inr (False, L2\<lparr>column := column L2 - 1\<rparr>)))
     else Inr (False, L))"

section \<open>Literals and identifiers (lines 326-391)\<close>

text \<open>The loop of \<open>readString\<close>: the characters up to the next double quote or the end.\<close>

function readString_chars :: "Lexer \<Rightarrow> string \<Rightarrow> Lexer \<times> string" where
  "readString_chars L v =
    (if peek L \<noteq> JsNull \<and> peek L \<noteq> JsChar (CHR 0x22)
     then readString_chars (snd (advance L)) (v @ str_of (fst (advance L)))
     else (L, v))"
  by pat_completeness auto
termination
  by (relation "measure (\<lambda>(L, v). length (source L) - currentPos L)") (simp_all add: advance_measure)

declare readString_chars.simps [simp del]

definition readString :: "Lexer \<Rightarrow> LexerError + Lexer" where
  "readString L =
    (let startLine = line L; startColumn = column L;
         quoteChar = fst (advance L); L1 = snd (advance L)
     in if quoteChar \<noteq> JsChar (CHR 0x22) then
          Inl (LexerError (''Unexpected character '' @ [CHR 0x27] @ str_of quoteChar @ [CHR 0x27] @
                           '', expected '' @ [CHR 0x27, CHR 0x22, CHR 0x27]) startLine startColumn)
        else
          (let L2 = fst (readString_chars L1 []); v = snd (readString_chars L1 []) in
           if peek L2 = JsNull then
             Inl (LexerError ''Unterminated string literal'' startLine startColumn)
           else
             Inr (addToken STRING v startLine startColumn (snd (advance L2)))))"

text \<open>
  The loop \<open>while (this.isDigit(this.peek())) value += this.advance()\<close>, used twice by
  \<open>readNumber\<close>. At end of input \<open>peek\<close> is \<open>null\<close>, \<open>isDigit\<close> holds, \<open>advance\<close>
  returns \<open>null\<close> without moving, and the loop goes on: the result \<open>None\<close> stands for a
  loop that never exits.
\<close>

partial_function (option) readNumber_digits :: "Lexer \<Rightarrow> string \<Rightarrow> (Lexer \<times> string) option" where
  "readNumber_digits L v =
    (if isDigit (peek L)
     then readNumber_digits (snd (advance L)) (v @ str_of (fst (advance L)))
     else Some (L, v))"

declare readNumber_digits.simps [code]

definition readNumber :: "Lexer \<Rightarrow> Lexer option" where
  "readNumber L =
    (let startLine = line L; startColumn = column L in
     case readNumber_digits L [] of
       None \<Rightarrow> None
     | Some (L1, v1) \<Rightarrow>
         if peek L1 = JsChar (CHR ''.'') \<and> isDigit (source_at L1 (currentPos L1 + 1)) then
           (case readNumber_digits (snd (advance L1)) (v1 @ str_of (fst (advance L1))) of
              None \<Rightarrow> None
            | Some (L2, v2) \<Rightarrow> Some (addToken NUMBER v2 startLine startColumn L2))
         else Some (addToken NUMBER v1 startLine startColumn L1))"

text \<open>
  The loop of \<open>readIdentifierOrKeyword\<close>; \<open>isAlphaNumeric\<close> holds of \<open>null\<close> as \<open>isDigit\<close>
  does, so this loop does not exit at end of input either.
\<close>

partial_function (option) readIdentifier_chars :: "Lexer \<Rightarrow> string \<Rightarrow> (Lexer \<times> string) option" where
  "readIdentifier_chars L v =
    (if isAlphaNumeric (peek L) \<or> peek L = JsChar (CHR ''-'')
     then readIdentifier_chars (snd (advance L)) (v @ str_of (fst (advance L)))
     else Some (L, v))"

declare readIdentifier_chars.simps [code]

definition readIdentifierOrKeyword :: "Lexer \<Rightarrow> Lexer option" where
  "readIdentifierOrKeyword L =
    (let startLine = line L; startColumn = column L in
     case readIdentifier_chars L [] of
       None \<Rightarrow> None
     | Some (L1, v) \<Rightarrow>
         (let tokenType = (case KEYWORDS_get v of Some t \<Rightarrow> t | None \<Rightarrow> IDENTIFIER)
          in Some (addToken tokenType v startLine startColumn L1)))"

section \<open>nextToken and tokenize (lines 399-526)\<close>

text \<open>
  The operators of one or two characters: \<open>=\<close>, \<open>!\<close>, \<open><\<close>, \<open>>\<close> take a following \<open>=\<close>;
  \<open>&\<close> and \<open>|\<close> must be doubled.
\<close>

definition nextToken_switch :: "jschar \<Rightarrow> nat \<Rightarrow> nat \<Rightarrow> Lexer \<Rightarrow> LexerError + Lexer" where
  "nextToken_switch char startLine startColumn L =
    (let c = fst (advance L); L1 = snd (advance L); L2 = snd (advance L1);
         unexpected = LexerError (''Unexpected character '' @ [CHR 0x27] @ str_of char @ [CHR 0x27])
                        startLine startColumn
     in
     if char = JsChar (CHR ''='') then
       (if peek L1 = JsChar (CHR ''='') then Inr (addToken EQ ''=='' startLine startColumn L2)
        else Inr (addToken ASSIGN ''='' startLine startColumn L1))
     else if char = JsChar (CHR ''!'') then
       (if peek L1 = JsChar (CHR ''='') then Inr (addToken NEQ ''!='' startLine startColumn L2)
        else Inr (addToken NOT ''!'' startLine startColumn L1))
     else if char = JsChar (CHR ''<'') then
       (if peek L1 = JsChar (CHR ''='') then Inr (addToken LE ''<='' startLine startColumn L2)
        else Inr (addToken LT ''<'' startLine startColumn L1))
     else if char = JsChar (CHR ''>'') then
       (if peek L1 = JsChar (CHR ''='') then Inr (addToken GE ''>='' startLine startColumn L2)
        else Inr (addToken GT ''>'' startLine startColumn L1))
     else if char = JsChar (CHR ''&'') then
       (if peek L1 = JsChar (CHR ''&'') then Inr (addToken AND ''&&'' startLine startColumn L2)
        else Inl unexpected)
     else if char = JsChar (CHR ''|'') then
       (if peek L1 = JsChar (CHR ''|'') then Inr (addToken OR ''||'' startLine startColumn L2)
        else Inl unexpected)
     else if char = JsChar (CHR ''+'') then Inr (addToken PLUS (str_of c) startLine startColumn L1)
     else if char = JsChar (CHR ''-'') then Inr (addToken MINUS (str_of c) startLine startColumn L1)
     else if char = JsChar (CHR ''*'') then Inr (addToken MULTIPLY (str_of c) startLine startColumn L1)
     else if char = JsChar (CHR ''%'') then Inr (addToken MODULO (str_of c) startLine startColumn L1)
     else if char = JsChar (CHR ''('') then Inr (addToken LPAREN (str_of c) startLine startColumn L1)
     else if char = JsChar (CHR '')'') then Inr (addToken RPAREN (str_of c) startLine startColumn L1)
     else if char = JsChar (CHR ''{'') then Inr (addToken LBRACE (str_of c) startLine startColumn L1)
     else if char = JsChar (CHR ''}'') then Inr (addToken RBRACE (str_of c) startLine startColumn L1)
     else if char = JsChar (CHR ''['') then Inr (addToken LBRACKET (str_of c) startLine startColumn L1)
     else if char = JsChar (CHR '']'') then Inr (addToken RBRACKET (str_of c) startLine startColumn L1)
     else if char = JsChar (CHR '','') then Inr (addToken COMMA (str_of c) startLine startColumn L1)
     else if char = JsChar (CHR '';'') then Inr (addToken SEMICOLON (str_of c) startLine startColumn L1)
     else if char = JsChar (CHR '':'') then Inr (addToken COLON (str_of c) startLine startColumn L1)
     else if char = JsChar (CHR ''.'') then Inr (addToken DOT (str_of c) startLine startColumn L1)
     else if char = JsChar (CHR ''@'') then Inr (addToken AT (str_of c) startLine startColumn L1)
     else if char = JsChar (CHR ''/'') then Inr (addToken SLASH (str_of c) startLine startColumn L1)
     else Inl unexpected)"

lemma skipWhitespace_source [simp]: "source (skipWhitespace L) = source L"
  by (induction L rule: skipWhitespace.induct)
     (subst skipWhitespace.simps, auto simp: advance_def Let_def)

lemma skipWhitespace_pos: "currentPos L \<le> currentPos (skipWhitespace L)"
proof (induction L rule: skipWhitespace.induct)
  case (1 L)
  have "currentPos L \<le> currentPos (snd (advance L))"
    by (auto simp: advance_def Let_def)
  with 1 show ?case
    by (subst skipWhitespace.simps) auto
qed

lemma advance_source [simp]: "source (snd (advance L)) = source L"
  by (auto simp: advance_def Let_def)

lemma advance_pos: "currentPos L \<le> currentPos (snd (advance L))"
  by (auto simp: advance_def Let_def)

lemma advance_pos_less: "peek L \<noteq> JsNull \<Longrightarrow> currentPos L < currentPos (snd (advance L))"
  by (auto simp: advance_def peek_def Let_def split: if_splits)

lemma readComment_line_source [simp]: "source (readComment_line L) = source L"
  by (induction L rule: readComment_line.induct)
     (subst readComment_line.simps, auto)

lemma readComment_line_pos: "currentPos L \<le> currentPos (readComment_line L)"
proof (induction L rule: readComment_line.induct)
  case (1 L)
  then show ?case
    using advance_pos [of L] by (subst readComment_line.simps) auto
qed

lemma readComment_block_source: "readComment_block L = Some L' \<Longrightarrow> source L' = source L"
proof (induction L rule: readComment_block.induct)
  case (1 L)
  from "1.prems" show ?case
    by (subst (asm) readComment_block.simps)
       (auto simp: Let_def split: if_splits dest: "1.IH" [OF _ refl refl])
qed

lemma readComment_block_pos: "readComment_block L = Some L' \<Longrightarrow> currentPos L < currentPos L'"
proof (induction L rule: readComment_block.induct)
  case (1 L)
  show ?case
  proof (cases "peek L = JsNull")
    case True
    with "1.prems" show ?thesis by (subst (asm) readComment_block.simps) simp
  next
    case False
    note lt = advance_pos_less [OF False]
    show ?thesis
    proof (cases "fst (advance L) = JsChar (CHR ''*'') \<and> peek (snd (advance L)) = JsChar (CHR ''/'')")
      case True
      with False "1.prems" have "L' = snd (advance (snd (advance (snd (advance L)))))"
        by (subst (asm) readComment_block.simps) (simp add: Let_def)
      then show ?thesis
        using lt advance_pos [of "snd (advance L)"] advance_pos [of "snd (advance (snd (advance L)))"]
        by simp
    next
      case nomatch: False
      with False "1.prems" have "readComment_block (snd (advance L)) = Some L'"
        by (subst (asm) readComment_block.simps) (auto simp: Let_def)
      from "1.IH" [OF False refl refl nomatch this] lt show ?thesis by simp
    qed
  qed
qed

lemma readComment_True:
  assumes "readComment L = Inr (True, L')"
  shows "source L' = source L \<and> currentPos L < currentPos L'"
proof -
  from assms have sl: "peek L = JsChar (CHR ''/'')"
    by (auto simp: readComment_def Let_def split: if_splits)
  then have lt: "currentPos L < currentPos (snd (advance L))"
    by (intro advance_pos_less) simp
  let ?L1 = "snd (advance L)"
  show ?thesis
  proof (cases "peek ?L1 = JsChar (CHR ''/'')")
    case True
    with assms sl have "L' = readComment_line (snd (advance ?L1))"
      by (simp add: readComment_def Let_def)
    then show ?thesis
      using lt advance_pos [of ?L1] readComment_line_pos [of "snd (advance ?L1)"] by simp
  next
    case False
    with assms sl have "readComment_block (snd (advance ?L1)) = Some L'"
      by (auto simp: readComment_def Let_def split: if_splits option.splits)
    from readComment_block_source [OF this] readComment_block_pos [OF this]
    show ?thesis
      using lt advance_pos [of ?L1] by simp
  qed
qed

function nextToken :: "Lexer \<Rightarrow> (LexerError + Lexer) option" where
  "nextToken L0 =
    (let L = skipWhitespace L0; startLine = line L; startColumn = column L in
     if currentPos L \<ge> length (source L) then
       Some (Inr (addToken EOF ''EOF'' startLine startColumn L))
     else
       (let char = peek L in
        case readComment L of
          Inl e \<Rightarrow> Some (Inl e)
        | Inr (True, L1) \<Rightarrow> nextToken L1
        | Inr (False, L1) \<Rightarrow>
            if char = JsChar (CHR 0x22) then Some (readString L1)
            else if isDigit char then map_option Inr (readNumber L1)
            else if isAlpha char \<or> char = JsChar (CHR ''_'') then
              map_option Inr (readIdentifierOrKeyword L1)
            else Some (nextToken_switch char startLine startColumn L1)))"
  by pat_completeness auto
termination
proof (relation "measure (\<lambda>L. length (source L) - currentPos L)")
  show "wf (measure (\<lambda>L. length (source L) - currentPos L))" by simp
next
  fix L0 L r b L1
  assume a: "L = skipWhitespace L0" "\<not> length (source L) \<le> currentPos L"
    and r: "readComment L = Inr r" "(b, L1) = r" "b = True"
  from r have "readComment L = Inr (True, L1)" by simp
  from readComment_True [OF this] a skipWhitespace_pos [of L0]
  show "(L1, L0) \<in> measure (\<lambda>L. length (source L) - currentPos L)"
    by auto
qed

declare nextToken.simps [simp del]

text \<open>
  The loop of \<open>tokenize\<close>. It is given as a partial function because its body may not
  return; \<open>tokenize\<close> runs it on the lexer's state, appends the final \<open>EOF\<close> token and
  returns the token list.
\<close>

partial_function (option) tokenize_loop :: "Lexer \<Rightarrow> (LexerError + Lexer) option" where
  "tokenize_loop L =
    (if currentPos L < length (source L) then
       (case nextToken L of
          None \<Rightarrow> None
        | Some (Inl e) \<Rightarrow> Some (Inl e)
        | Some (Inr L1) \<Rightarrow> tokenize_loop L1)
     else Some (Inr L))"

declare tokenize_loop.simps [code]

definition tokenize :: "Lexer \<Rightarrow> (LexerError + Token list) option" where
  "tokenize L =
    (case tokenize_loop L of
       None \<Rightarrow> None
     | Some (Inl e) \<Rightarrow> Some (Inl e)
     | Some (Inr L1) \<Rightarrow> Some (Inr (tokens (addToken EOF ''EOF'' (line L1) (column L1) L1))))"

section \<open>Vocabulary for stating properties\<close>

text \<open>
  The input not yet consumed, its first character as \<open>peek\<close> sees it, the state after
  \<open>n\<close> calls of \<open>advance\<close>, and the 1-based line and column of an index of the source
  as the specification defines them: the line is one more than the number of newlines
  before the index, the column one more than the number of characters since the last
  newline.
\<close>

definition remaining :: "Lexer \<Rightarrow> string" where
  "remaining L = drop (currentPos L) (source L)"

fun first :: "string \<Rightarrow> jschar" where
  "first [] = JsNull"
| "first (c # r) = JsChar c"

primrec advanced :: "nat \<Rightarrow> Lexer \<Rightarrow> Lexer" where
  "advanced 0 L = L"
| "advanced (Suc n) L = advanced n (snd (advance L))"

definition line_at :: "string \<Rightarrow> nat \<Rightarrow> nat" where
  "line_at src i = 1 + length (filter (\<lambda>c. c = CHR 0x0A) (take i src))"

definition column_at :: "string \<Rightarrow> nat \<Rightarrow> nat" where
  "column_at src i = 1 + length (takeWhile (\<lambda>c. c \<noteq> CHR 0x0A) (rev (take i src)))"

definition position_exact :: "Lexer \<Rightarrow> bool" where
  "position_exact L =
    (line L = line_at (source L) (currentPos L) \<and> column L = column_at (source L) (currentPos L))"

text \<open>
  A character on which \<open>nextToken\<close> reaches the final \<open>throw\<close>: no whitespace, no quote,
  digit, letter or underscore, and none of the characters of the \<open>switch\<close>. An identifier
  as the lexer reads it: a letter or underscore, then letters, digits, underscores and
  hyphens.
\<close>

definition matches_no_rule :: "char \<Rightarrow> bool" where
  "matches_no_rule c =
    (\<not> isWhitespace (JsChar c) \<and> c \<noteq> CHR 0x22 \<and> \<not> isDigit (JsChar c) \<and>
     \<not> isAlpha (JsChar c) \<and> c \<noteq> CHR ''_'' \<and> c \<notin> set ''=!<>&|+-*%(){}[],;:.@/'')"

definition is_identifier :: "string \<Rightarrow> bool" where
  "is_identifier x =
    (x \<noteq> [] \<and> (isAlpha (JsChar (hd x)) \<or> hd x = CHR ''_'') \<and>
     (\<forall>c\<in>set x. isAlphaNumeric (JsChar c) \<or> c = CHR ''-''))"

section \<open>The readers, by the input they find\<close>

lemma peek_remaining: "peek L = first (remaining L)"
proof (cases "remaining L")
  case Nil
  then show ?thesis by (simp add: peek_def remaining_def)
next
  case (Cons c r)
  then have "currentPos L < length (source L)" "source L ! currentPos L = c"
    by (auto simp: remaining_def nth_via_drop intro: ccontr)
  with Cons show ?thesis by (simp add: peek_def)
qed

lemma remaining_Cons_pos:
  "remaining L = c # r \<Longrightarrow> currentPos L < length (source L) \<and> source L ! currentPos L = c"
  by (auto simp: remaining_def nth_via_drop intro: ccontr)

lemma advance_Nil: "remaining L = [] \<Longrightarrow> advance L = (JsNull, L)"
  by (simp add: advance_def remaining_def)

lemma advance_Cons:
  assumes "remaining L = c # r"
  shows "fst (advance L) = JsChar c"
    and "remaining (snd (advance L)) = r"
    and "currentPos (snd (advance L)) = currentPos L + 1"
    and "tokens (snd (advance L)) = tokens L"
proof -
  from remaining_Cons_pos [OF assms]
  have p: "currentPos L < length (source L)" "source L ! currentPos L = c" by simp_all
  then show "fst (advance L) = JsChar c" "currentPos (snd (advance L)) = currentPos L + 1"
    "tokens (snd (advance L)) = tokens L"
    by (simp_all add: advance_def Let_def)
  have "drop (Suc (currentPos L)) (source L) = tl (drop (currentPos L) (source L))"
    by (simp add: drop_Suc tl_drop)
  with assms p show "remaining (snd (advance L)) = r"
    by (simp add: advance_def Let_def remaining_def)
qed

lemma advanced_source [simp]: "source (advanced n L) = source L"
  by (induction n arbitrary: L) simp_all

lemma advance_tokens [simp]: "tokens (snd (advance L)) = tokens L"
  by (simp add: advance_def Let_def)

lemma advanced_tokens [simp]: "tokens (advanced n L) = tokens L"
  by (induction n arbitrary: L) simp_all

lemma advanced_add: "advanced (m + n) L = advanced n (advanced m L)"
  by (induction m arbitrary: L) simp_all

lemma advanced_remaining:
  "remaining L = xs @ r \<Longrightarrow> remaining (advanced (length xs) L) = r"
proof (induction xs arbitrary: L)
  case Nil
  then show ?case by simp
next
  case (Cons x xs)
  then have "remaining L = x # (xs @ r)" by simp
  from advance_Cons(2) [OF this] Cons.IH show ?case by simp
qed

lemma advanced_pos:
  "remaining L = xs @ r \<Longrightarrow> currentPos (advanced (length xs) L) = currentPos L + length xs"
proof (induction xs arbitrary: L)
  case Nil
  then show ?case by simp
next
  case (Cons x xs)
  then have c: "remaining L = x # (xs @ r)" by simp
  from advance_Cons(2) [OF c] have "remaining (snd (advance L)) = xs @ r" .
  from Cons.IH [OF this] advance_Cons(3) [OF c] show ?case by simp
qed

lemma advance_exact: "position_exact L \<Longrightarrow> position_exact (snd (advance L))"
  by (auto simp: position_exact_def advance_def Let_def line_at_def column_at_def
      take_Suc_conv_app_nth)

lemma advanced_exact: "position_exact L \<Longrightarrow> position_exact (advanced n L)"
  by (induction n arbitrary: L) (simp_all add: advance_exact)

lemma Lexer_new_exact: "position_exact (Lexer_new src)"
  by (simp add: position_exact_def Lexer_new_def line_at_def column_at_def)

lemma skipWhitespace_prefix:
  assumes "remaining L = ws @ r" "\<forall>w\<in>set ws. isWhitespace (JsChar w)" "\<not> isWhitespace (first r)"
  shows "skipWhitespace L = advanced (length ws) L"
  using assms
proof (induction ws arbitrary: L)
  case Nil
  then show ?case by (subst skipWhitespace.simps) (simp add: peek_remaining)
next
  case (Cons w ws)
  then have c: "remaining L = w # (ws @ r)" by simp
  from advance_Cons(2) [OF c] have "remaining (snd (advance L)) = ws @ r" .
  from Cons.IH [OF this] Cons.prems have "skipWhitespace (snd (advance L)) = advanced (length ws) (snd (advance L))"
    by simp
  with Cons.prems c show ?case
    by (subst skipWhitespace.simps) (simp add: peek_remaining)
qed

lemma readString_chars_content:
  assumes "remaining L = content @ r" "CHR 0x22 \<notin> set content" "first r = JsNull \<or> first r = JsChar (CHR 0x22)"
  shows "readString_chars L v = (advanced (length content) L, v @ content)"
  using assms
proof (induction content arbitrary: L v)
  case Nil
  then show ?case by (subst readString_chars.simps) (auto simp: peek_remaining)
next
  case (Cons c cs)
  then have c: "remaining L = c # (cs @ r)" by simp
  from advance_Cons(2) [OF c] have "remaining (snd (advance L)) = cs @ r" .
  from Cons.IH [OF this] Cons.prems
  have "readString_chars (snd (advance L)) (v @ [c]) = (advanced (length cs) (snd (advance L)), (v @ [c]) @ cs)"
    by simp
  with Cons.prems c advance_Cons(1) [OF c] show ?case
    by (subst readString_chars.simps) (auto simp: peek_remaining)
qed

lemma readComment_line_text:
  assumes "remaining L = cmt @ r" "CHR 0x0A \<notin> set cmt" "first r = JsNull \<or> first r = JsChar (CHR 0x0A)"
  shows "readComment_line L = advanced (length cmt) L"
  using assms
proof (induction cmt arbitrary: L)
  case Nil
  then show ?case by (subst readComment_line.simps) (auto simp: peek_remaining)
next
  case (Cons c cs)
  then have c: "remaining L = c # (cs @ r)" by simp
  from advance_Cons(2) [OF c] have "remaining (snd (advance L)) = cs @ r" .
  from Cons.IH [OF this] Cons.prems
  have "readComment_line (snd (advance L)) = advanced (length cs) (snd (advance L))"
    by simp
  with Cons.prems c show ?case
    by (subst readComment_line.simps) (auto simp: peek_remaining)
qed

lemma readIdentifier_chars_lexeme:
  assumes "remaining L = x @ r"
    "\<forall>c\<in>set x. isAlphaNumeric (JsChar c) \<or> c = CHR ''-''"
    "\<not> isAlphaNumeric (first r)" "first r \<noteq> JsChar (CHR ''-'')"
  shows "readIdentifier_chars L v = Some (advanced (length x) L, v @ x)"
  using assms
proof (induction x arbitrary: L v)
  case Nil
  then show ?case by (subst readIdentifier_chars.simps) (auto simp: peek_remaining)
next
  case (Cons c cs)
  then have c: "remaining L = c # (cs @ r)" by simp
  from advance_Cons(2) [OF c] have "remaining (snd (advance L)) = cs @ r" .
  from Cons.IH [OF this] Cons.prems
  have "readIdentifier_chars (snd (advance L)) (v @ [c]) = Some (advanced (length cs) (snd (advance L)), (v @ [c]) @ cs)"
    by simp
  with Cons.prems c advance_Cons(1) [OF c] show ?case
    by (subst readIdentifier_chars.simps) (auto simp: peek_remaining)
qed


text \<open>
  The loops of \<open>readNumber\<close> and \<open>readIdentifierOrKeyword\<close> return only from a state
  that is not at the end of input; started there, they do not return.
\<close>

lemma readNumber_digits_returns:
  assumes "readNumber_digits L v = Some y"
  shows "currentPos L < length (source L)"
proof (rule readNumber_digits.raw_induct [where P = "\<lambda>L v y. currentPos L < length (source L)", OF _ assms])
  fix loop :: "Lexer \<Rightarrow> string \<Rightarrow> (Lexer \<times> string) option" and L v y
  assume IH: "\<And>L v y. loop L v = Some y \<Longrightarrow> currentPos L < length (source L)"
    and eq: "(if isDigit (peek L) then loop (snd (advance L)) (v @ str_of (fst (advance L))) else Some (L, v)) = Some y"
  show "currentPos L < length (source L)"
  proof (cases "peek L = JsNull")
    case True
    then have "advance L = (JsNull, L)" by (simp add: advance_def peek_def split: if_splits)
    with True eq have "loop L (v @ ''null'') = Some y" by simp
    from IH [OF this] show ?thesis .
  next
    case False
    then show ?thesis by (simp add: peek_def split: if_splits)
  qed
qed

lemma readNumber_digits_eof:
  "length (source L) \<le> currentPos L \<Longrightarrow> readNumber_digits L v = None"
  using readNumber_digits_returns [of L v] by (cases "readNumber_digits L v") auto

lemma readIdentifier_chars_returns:
  assumes "readIdentifier_chars L v = Some y"
  shows "currentPos L < length (source L)"
proof (rule readIdentifier_chars.raw_induct [where P = "\<lambda>L v y. currentPos L < length (source L)", OF _ assms])
  fix loop :: "Lexer \<Rightarrow> string \<Rightarrow> (Lexer \<times> string) option" and L v y
  assume IH: "\<And>L v y. loop L v = Some y \<Longrightarrow> currentPos L < length (source L)"
    and eq: "(if isAlphaNumeric (peek L) \<or> peek L = JsChar (CHR ''-'') then loop (snd (advance L)) (v @ str_of (fst (advance L))) else Some (L, v)) = Some y"
  show "currentPos L < length (source L)"
  proof (cases "peek L = JsNull")
    case True
    then have "advance L = (JsNull, L)" by (simp add: advance_def peek_def split: if_splits)
    with True eq have "loop L (v @ ''null'') = Some y" by (simp add: isAlphaNumeric_def)
    from IH [OF this] show ?thesis .
  next
    case False
    then show ?thesis by (simp add: peek_def split: if_splits)
  qed
qed

lemma readIdentifier_chars_eof:
  "length (source L) \<le> currentPos L \<Longrightarrow> readIdentifier_chars L v = None"
  using readIdentifier_chars_returns [of L v] by (cases "readIdentifier_chars L v") auto

section \<open>Evaluation on concrete sources\<close>

lemmas lexer_eval =
  tokenize_def Lexer_new_def tokenize_loop.simps nextToken.simps skipWhitespace.simps
  peek_def advance_def source_at_def readComment_def readComment_block.simps readComment_line.simps
  readString_def readString_chars.simps readNumber_def readIdentifierOrKeyword_def
  nextToken_switch_def addToken_def Let_def isAlphaNumeric_def
  KEYWORDS_get_def KEYWORDS_def Object_prototype_names_def

section \<open>One call of nextToken, by the input it finds\<close>

lemma advanced_Suc_right: "snd (advance (advanced n L)) = advanced (Suc n) L"
  by (induction n arbitrary: L) simp_all

lemma nextToken_at:
  assumes r: "remaining L = ws @ c # r"
    and ws: "\<forall>w\<in>set ws. isWhitespace (JsChar w)"
    and c: "\<not> isWhitespace (JsChar c)" "c \<noteq> CHR ''/''"
  shows "nextToken L =
    (let L' = advanced (length ws) L in
     if c = CHR 0x22 then Some (readString L')
     else if isDigit (JsChar c) then map_option Inr (readNumber L')
     else if isAlpha (JsChar c) \<or> c = CHR ''_'' then map_option Inr (readIdentifierOrKeyword L')
     else Some (nextToken_switch (JsChar c) (line L') (column L') L'))"
proof -
  let ?L' = "advanced (length ws) L"
  have sk: "skipWhitespace L = ?L'"
    using c by (intro skipWhitespace_prefix [OF r ws]) simp
  have rem: "remaining ?L' = c # r"
    by (rule advanced_remaining [OF r])
  from remaining_Cons_pos [OF rem] have pos: "\<not> length (source L) \<le> currentPos ?L'"
    by simp
  have pk: "peek ?L' = JsChar c"
    by (simp add: peek_remaining rem)
  have rc: "readComment ?L' = Inr (False, ?L')"
    using c by (simp add: readComment_def pk)
  show ?thesis
    by (subst nextToken.simps) (simp add: sk pos pk rc Let_def)
qed

lemma tokenize_error:
  assumes "nextToken L = Some (Inl e)" "currentPos L < length (source L)"
  shows "tokenize L = Some (Inl e)"
  using assms by (simp add: tokenize_def tokenize_loop.simps)

lemma position_at_advanced:
  assumes "position_exact L" "remaining L = xs @ r"
  shows "line (advanced (length xs) L) = line_at (source L) (currentPos L + length xs)"
    and "column (advanced (length xs) L) = column_at (source L) (currentPos L + length xs)"
  using advanced_exact [OF assms(1), of "length xs"] advanced_pos [OF assms(2)]
  by (simp_all add: position_exact_def)

lemma KEYWORDS_get_hyphen: "CHR ''-'' \<in> set v \<Longrightarrow> KEYWORDS_get v = None"
proof -
  assume h: "CHR ''-'' \<in> set v"
  have "v \<notin> fst ` set KEYWORDS"
    using h by (auto simp: KEYWORDS_def)
  then have "map_of KEYWORDS v = None"
    by (simp add: map_of_eq_None_iff)
  moreover have "v \<notin> set Object_prototype_names"
    using h by (auto simp: Object_prototype_names_def)
  ultimately show ?thesis by (simp add: KEYWORDS_get_def)
qed

lemma isAlpha_start:
  assumes "isAlpha (JsChar c) \<or> c = CHR ''_''"
  shows "\<not> isWhitespace (JsChar c)" "c \<noteq> CHR ''/''" "c \<noteq> CHR 0x22" "\<not> isDigit (JsChar c)"
  using assms by auto

lemma nextToken_at_end:
  assumes "remaining L = []"
  shows "nextToken L = Some (Inr (addToken EOF ''EOF'' (line L) (column L) L))"
proof -
  from assms have pk: "peek L = JsNull" by (simp add: peek_remaining)
  then have sk: "skipWhitespace L = L" by (subst skipWhitespace.simps) simp
  from assms have "length (source L) \<le> currentPos L" by (simp add: remaining_def)
  then show ?thesis by (subst nextToken.simps) (simp add: sk Let_def)
qed

lemmas witness_eval =
  remaining_def Lexer_new_def advance_def addToken_def Let_def line_at_def column_at_def
  position_exact_def is_identifier_def isAlphaNumeric_def matches_no_rule_def eval_nat_numeral

section \<open>Strings, unexpected characters and hyphens: what one call does\<close>

text \<open>
  An unterminated string literal and an unexpected character always end \<open>nextToken\<close> and
  \<open>tokenize\<close> with the error; the error carries the line and column the lexer tracks
  at that character, which are the character's own line and column whenever the tracked
  position is exact.
\<close>

lemma unterminated_string_fails:
  assumes "remaining L = ws @ [CHR 0x22] @ content"
    and "\<forall>w\<in>set ws. isWhitespace (JsChar w)"
    and "CHR 0x22 \<notin> set content"
  shows "nextToken L =
      Some (Inl (LexerError ''Unterminated string literal''
                  (line (advanced (length ws) L)) (column (advanced (length ws) L)))) \<and>
    tokenize L =
      Some (Inl (LexerError ''Unterminated string literal''
                  (line (advanced (length ws) L)) (column (advanced (length ws) L))))"
proof -
  let ?L' = "advanced (length ws) L"
  let ?L1 = "snd (advance ?L')"
  from assms(1) have r: "remaining L = ws @ CHR 0x22 # content" by simp
  have rem: "remaining ?L' = CHR 0x22 # content"
    by (rule advanced_remaining [OF r])
  have q: "fst (advance ?L') = JsChar (CHR 0x22)"
    by (rule advance_Cons(1) [OF rem])
  have rem1: "remaining ?L1 = content @ []"
    using advance_Cons(2) [OF rem] by simp
  have chars: "readString_chars ?L1 [] = (advanced (length content) ?L1, content)"
    using readString_chars_content [OF rem1 assms(3), of "[]"] by simp
  have "remaining (advanced (length content) ?L1) = []"
    by (rule advanced_remaining [OF rem1])
  then have pk: "peek (advanced (length content) ?L1) = JsNull"
    by (simp add: peek_remaining)
  have "readString ?L' = Inl (LexerError ''Unterminated string literal'' (line ?L') (column ?L'))"
    by (simp add: readString_def Let_def q chars pk)
  then have n: "nextToken L =
      Some (Inl (LexerError ''Unterminated string literal'' (line ?L') (column ?L')))"
    using nextToken_at [OF r assms(2)] by (simp add: Let_def)
  from remaining_Cons_pos [of L] r have "currentPos L < length (source L)"
    by (cases ws) auto
  from n tokenize_error [OF n this] show ?thesis by simp
qed

lemma unterminated_string_error:
  assumes "position_exact L"
    and "remaining L = ws @ [CHR 0x22] @ content"
    and "\<forall>w\<in>set ws. isWhitespace (JsChar w)"
    and "CHR 0x22 \<notin> set content"
  shows "nextToken L =
      Some (Inl (LexerError ''Unterminated string literal''
                  (line_at (source L) (currentPos L + length ws))
                  (column_at (source L) (currentPos L + length ws)))) \<and>
    tokenize L =
      Some (Inl (LexerError ''Unterminated string literal''
                  (line_at (source L) (currentPos L + length ws))
                  (column_at (source L) (currentPos L + length ws))))"
proof -
  from assms(2) have r: "remaining L = ws @ CHR 0x22 # content" by simp
  from unterminated_string_fails [OF assms(2-4)] position_at_advanced [OF assms(1) r]
  show ?thesis by simp
qed

lemma unterminated_string_error_example:
  "nextToken (Lexer_new [CHR '' '', CHR 0x22, CHR ''a'', CHR ''b'']) =
     Some (Inl (LexerError ''Unterminated string literal'' 1 2)) \<and>
   tokenize (Lexer_new [CHR '' '', CHR 0x22, CHR ''a'', CHR ''b'']) =
     Some (Inl (LexerError ''Unterminated string literal'' 1 2))"
  using unterminated_string_error
    [where L = "Lexer_new [CHR '' '', CHR 0x22, CHR ''a'', CHR ''b'']"
       and ws = "'' ''" and content = "''ab''"]
  by (simp add: witness_eval)

lemma unexpected_character_fails:
  assumes "remaining L = ws @ c # r"
    and "\<forall>w\<in>set ws. isWhitespace (JsChar w)"
    and "(c = CHR ''&'' \<and> first r \<noteq> JsChar (CHR ''&'')) \<or>
         (c = CHR ''|'' \<and> first r \<noteq> JsChar (CHR ''|'')) \<or>
         matches_no_rule c"
  shows "tokenize L =
      Some (Inl (LexerError (''Unexpected character '' @ [CHR 0x27, c, CHR 0x27])
                  (line (advanced (length ws) L)) (column (advanced (length ws) L))))"
proof -
  let ?L' = "advanced (length ws) L"
  have rem: "remaining ?L' = c # r"
    by (rule advanced_remaining [OF assms(1)])
  have pk1: "peek (snd (advance ?L')) = first r"
    using advance_Cons(2) [OF rem] by (simp add: peek_remaining)
  from assms(3) consider
      (amp) "c = CHR ''&''" "first r \<noteq> JsChar (CHR ''&'')"
    | (bar) "c = CHR ''|''" "first r \<noteq> JsChar (CHR ''|'')"
    | (other) "matches_no_rule c"
    by blast
  then have sw: "nextToken_switch (JsChar c) (line ?L') (column ?L') ?L' =
      Inl (LexerError (''Unexpected character '' @ [CHR 0x27, c, CHR 0x27]) (line ?L') (column ?L'))"
  proof cases
    case amp
    then show ?thesis by (simp add: nextToken_switch_def Let_def pk1)
  next
    case bar
    then show ?thesis by (simp add: nextToken_switch_def Let_def pk1)
  next
    case other
    then show ?thesis by (simp add: nextToken_switch_def Let_def matches_no_rule_def)
  qed
  have "\<not> isWhitespace (JsChar c) \<and> c \<noteq> CHR ''/'' \<and> c \<noteq> CHR 0x22 \<and> \<not> isDigit (JsChar c) \<and>
      \<not> isAlpha (JsChar c) \<and> c \<noteq> CHR ''_''"
    using assms(3) by (elim disjE conjE) (simp_all add: matches_no_rule_def)
  then have c: "\<not> isWhitespace (JsChar c)" "c \<noteq> CHR ''/''" "c \<noteq> CHR 0x22" "\<not> isDigit (JsChar c)"
    "\<not> isAlpha (JsChar c)" "c \<noteq> CHR ''_''"
    by blast+
  have n: "nextToken L =
      Some (Inl (LexerError (''Unexpected character '' @ [CHR 0x27, c, CHR 0x27])
                  (line ?L') (column ?L')))"
    using nextToken_at [OF assms(1,2) c(1,2)] c sw
    by (simp add: Let_def)
  from remaining_Cons_pos [of L] assms(1) have "currentPos L < length (source L)"
    by (cases ws) auto
  from tokenize_error [OF n this] show ?thesis .
qed

lemma unexpected_character_error:
  assumes "position_exact L"
    and "remaining L = ws @ c # r"
    and "\<forall>w\<in>set ws. isWhitespace (JsChar w)"
    and "(c = CHR ''&'' \<and> first r \<noteq> JsChar (CHR ''&'')) \<or>
         (c = CHR ''|'' \<and> first r \<noteq> JsChar (CHR ''|'')) \<or>
         matches_no_rule c"
  shows "tokenize L =
      Some (Inl (LexerError (''Unexpected character '' @ [CHR 0x27, c, CHR 0x27])
                  (line_at (source L) (currentPos L + length ws))
                  (column_at (source L) (currentPos L + length ws))))"
  using unexpected_character_fails [OF assms(2-4)] position_at_advanced [OF assms(1,2)]
  by simp

lemma unexpected_character_error_example:
  "tokenize (Lexer_new ''&x'') = Some (Inl (LexerError [CHR ''U'', CHR ''n'', CHR ''e'', CHR ''x'',
      CHR ''p'', CHR ''e'', CHR ''c'', CHR ''t'', CHR ''e'', CHR ''d'', CHR '' '', CHR ''c'', CHR ''h'',
      CHR ''a'', CHR ''r'', CHR ''a'', CHR ''c'', CHR ''t'', CHR ''e'', CHR ''r'', CHR '' '',
      CHR 0x27, CHR ''&'', CHR 0x27] 1 1)) \<and>
   tokenize (Lexer_new '' |'') = Some (Inl (LexerError [CHR ''U'', CHR ''n'', CHR ''e'', CHR ''x'',
      CHR ''p'', CHR ''e'', CHR ''c'', CHR ''t'', CHR ''e'', CHR ''d'', CHR '' '', CHR ''c'', CHR ''h'',
      CHR ''a'', CHR ''r'', CHR ''a'', CHR ''c'', CHR ''t'', CHR ''e'', CHR ''r'', CHR '' '',
      CHR 0x27, CHR ''|'', CHR 0x27] 1 2)) \<and>
   tokenize (Lexer_new [CHR 0x0A, CHR ''#'']) = Some (Inl (LexerError [CHR ''U'', CHR ''n'', CHR ''e'', CHR ''x'',
      CHR ''p'', CHR ''e'', CHR ''c'', CHR ''t'', CHR ''e'', CHR ''d'', CHR '' '', CHR ''c'', CHR ''h'',
      CHR ''a'', CHR ''r'', CHR ''a'', CHR ''c'', CHR ''t'', CHR ''e'', CHR ''r'', CHR '' '',
      CHR 0x27, CHR ''#'', CHR 0x27] 2 1))"
  using unexpected_character_error [where L = "Lexer_new ''&x''" and ws = "[]" and c = "CHR ''&''" and r = "''x''"]
    unexpected_character_error [where L = "Lexer_new '' |''" and ws = "'' ''" and c = "CHR ''|''" and r = "[]"]
    unexpected_character_error [where L = "Lexer_new [CHR 0x0A, CHR ''#'']" and ws = "[CHR 0x0A]" and c = "CHR ''#''" and r = "[]"]
  by (simp add: witness_eval)

text \<open>
  A lexeme \<open>x-y\<close> followed by a character that ends it is one \<open>IDENTIFIER\<close> token, and a
  hyphen on which \<open>nextToken\<close> dispatches is a \<open>MINUS\<close> token. An identifier lexeme that
  runs to the end of input is never completed.
\<close>

lemma hyphen_in_identifier:
  "(remaining L = ws @ x @ [CHR ''-''] @ y @ r \<and> (\<forall>w\<in>set ws. isWhitespace (JsChar w)) \<and>
    is_identifier x \<and> is_identifier y \<and>
    \<not> isAlphaNumeric (first r) \<and> first r \<noteq> JsChar (CHR ''-'')
    \<longrightarrow> nextToken L =
          Some (Inr (addToken IDENTIFIER (x @ [CHR ''-''] @ y)
                       (line (advanced (length ws) L)) (column (advanced (length ws) L))
                       (advanced (length ws + length x + 1 + length y) L)))) \<and>
   (remaining L = ws @ [CHR ''-''] @ r \<and> (\<forall>w\<in>set ws. isWhitespace (JsChar w))
    \<longrightarrow> nextToken L =
          Some (Inr (addToken MINUS [CHR ''-'']
                       (line (advanced (length ws) L)) (column (advanced (length ws) L))
                       (advanced (length ws + 1) L))))"
proof (intro conjI impI; elim conjE)
  let ?L' = "advanced (length ws) L"
  assume r0: "remaining L = ws @ x @ [CHR ''-''] @ y @ r"
    and ws: "\<forall>w\<in>set ws. isWhitespace (JsChar w)"
    and x: "is_identifier x" and y: "is_identifier y"
    and d: "\<not> isAlphaNumeric (first r)" "first r \<noteq> JsChar (CHR ''-'')"
  define v where "v = x @ [CHR ''-''] @ y"
  define Le where "Le = advanced (length ws + length x + 1 + length y) L"
  from x obtain c x' where xc: "x = c # x'" and c: "isAlpha (JsChar c) \<or> c = CHR ''_''"
    by (cases x) (auto simp: is_identifier_def)
  from r0 xc have r: "remaining L = ws @ c # (x' @ [CHR ''-''] @ y @ r)" by simp
  from r0 have rv: "remaining L = ws @ v @ r" by (simp add: v_def)
  have rem: "remaining ?L' = v @ r"
    by (rule advanced_remaining [OF rv])
  have all: "\<forall>c\<in>set v. isAlphaNumeric (JsChar c) \<or> c = CHR ''-''"
    using x y by (auto simp: is_identifier_def v_def)
  have "length ws + length x + 1 + length y = length ws + length v"
    by (simp add: v_def)
  then have st: "advanced (length v) ?L' = Le"
    by (simp only: advanced_add Le_def)
  have chars: "readIdentifier_chars ?L' [] = Some (Le, v)"
    using readIdentifier_chars_lexeme [OF rem all d, of "[]"] st by simp
  have kw: "KEYWORDS_get v = None"
    by (rule KEYWORDS_get_hyphen) (simp add: v_def)
  have "readIdentifierOrKeyword ?L' = Some (addToken IDENTIFIER v (line ?L') (column ?L') Le)"
    by (simp add: readIdentifierOrKeyword_def Let_def chars kw)
  then have "nextToken L = Some (Inr (addToken IDENTIFIER v (line ?L') (column ?L') Le))"
    using nextToken_at [OF r ws isAlpha_start(1,2) [OF c]] isAlpha_start(3,4) [OF c] c
    by (simp add: Let_def del: isDigit.simps isAlpha.simps)
  then show "nextToken L =
      Some (Inr (addToken IDENTIFIER (x @ [CHR ''-''] @ y) (line ?L') (column ?L')
                   (advanced (length ws + length x + 1 + length y) L)))"
    unfolding v_def Le_def .
next
  let ?L' = "advanced (length ws) L"
  assume r0: "remaining L = ws @ [CHR ''-''] @ r"
    and ws: "\<forall>w\<in>set ws. isWhitespace (JsChar w)"
  from r0 have r: "remaining L = ws @ CHR ''-'' # r" by simp
  have rem: "remaining ?L' = CHR ''-'' # r"
    by (rule advanced_remaining [OF r])
  have a: "fst (advance ?L') = JsChar (CHR ''-'')"
    by (rule advance_Cons(1) [OF rem])
  have sw: "nextToken_switch (JsChar (CHR ''-'')) (line ?L') (column ?L') ?L' =
      Inr (addToken MINUS [CHR ''-''] (line ?L') (column ?L') (advanced (length ws + 1) L))"
    by (simp add: nextToken_switch_def Let_def a advanced_Suc_right)
  show "nextToken L =
      Some (Inr (addToken MINUS [CHR ''-''] (line ?L') (column ?L') (advanced (length ws + 1) L)))"
    using nextToken_at [OF r ws] sw by (simp add: Let_def)
qed

lemma readIdentifier_chars_to_end:
  assumes "remaining L = x" "\<forall>c\<in>set x. isAlphaNumeric (JsChar c) \<or> c = CHR ''-''"
  shows "readIdentifier_chars L v = None"
  using assms
proof (induction x arbitrary: L v)
  case Nil
  then show ?case by (simp add: readIdentifier_chars_eof remaining_def)
next
  case (Cons c cs)
  from advance_Cons(2) [OF Cons.prems(1)] have "remaining (snd (advance L)) = cs" .
  from Cons.IH [OF this] Cons.prems(2)
  have "readIdentifier_chars (snd (advance L)) (v @ str_of (fst (advance L))) = None"
    by simp
  with Cons.prems show ?case
    by (subst readIdentifier_chars.simps) (auto simp: peek_remaining)
qed

lemma hyphen_in_identifier_example:
  "nextToken (Lexer_new ''a-b;'') =
     Some (Inr \<lparr>source = ''a-b;'', currentPos = 3, line = 1, column = 4,
                tokens = [Token IDENTIFIER ''a-b'' 1 1]\<rparr>) \<and>
   nextToken (Lexer_new '' -1'') =
     Some (Inr \<lparr>source = '' -1'', currentPos = 2, line = 1, column = 3,
                tokens = [Token MINUS ''-'' 1 2]\<rparr>)"
  using hyphen_in_identifier [where L = "Lexer_new ''a-b;''" and ws = "[]" and x = "''a''" and y = "''b''" and r = "'';''"]
    hyphen_in_identifier [where L = "Lexer_new '' -1''" and ws = "'' ''" and r = "''1''"]
  by (simp add: witness_eval)

section \<open>Claims\<close>

text \<open>
  C1. For every source on which \<open>tokenize\<close> succeeds the token sequence should end with
  exactly one \<open>EOF\<close> token. The code does otherwise: on the source consisting of a single
  space, \<open>nextToken\<close> skips the space, finds the end of input and adds an \<open>EOF\<close> token,
  and \<open>tokenize\<close> then adds a second one.
\<close>

theorem tokenize_trailing_space_two_EOF:
  "tokenize (Lexer_new '' '') = Some (Inr [Token EOF ''EOF'' 1 2, Token EOF ''EOF'' 1 2])"
  by code_simp

text \<open>
  C2. \<open>tokenize\<close> should return or fail with a lexical error on every source, in particular
  on one that ends in a digit or an identifier character. The code does otherwise: on the
  sources \<open>1\<close> and \<open>a\<close> the loops of \<open>readNumber\<close> and \<open>readIdentifierOrKeyword\<close> never
  exit, so \<open>tokenize\<close> yields neither a token sequence nor a lexical error.
\<close>

theorem tokenize_digit_at_end_diverges:
  "tokenize (Lexer_new ''1'') = None \<and> tokenize (Lexer_new ''a'') = None"
proof
  have "readNumber_digits \<lparr>source = ''1'', currentPos = 0, line = 1, column = 1, tokens = []\<rparr> [] = None"
    by (subst readNumber_digits.simps) (simp add: peek_def advance_def Let_def readNumber_digits_eof)
  then show "tokenize (Lexer_new ''1'') = None"
    by (simp add: lexer_eval)
  have "readIdentifier_chars \<lparr>source = ''a'', currentPos = 0, line = 1, column = 1, tokens = []\<rparr> [] = None"
    by (subst readIdentifier_chars.simps)
       (simp add: peek_def advance_def Let_def isAlphaNumeric_def readIdentifier_chars_eof)
  then show "tokenize (Lexer_new ''a'') = None"
    by (simp add: lexer_eval)
qed

text \<open>
  C3. After a well-formed block comment tokenization should resume at the first character
  after the closing \<open>*/\<close>, giving the tokens of the source with the comment replaced by
  one space. The code does otherwise: on \<open>/**/x;\<close> the character \<open>x\<close> after the comment is
  consumed with it and only \<open>;\<close> is emitted, while the source with a space in place of
  the comment gives the identifier \<open>x\<close> and \<open>;\<close>.
\<close>

theorem block_comment_swallows_next_character:
  "tokenize (Lexer_new ''/**/x;'') = Some (Inr [Token SEMICOLON '';'' 1 6, Token EOF ''EOF'' 1 7]) \<and>
   tokenize (Lexer_new '' x;'') =
     Some (Inr [Token IDENTIFIER ''x'' 1 2, Token SEMICOLON '';'' 1 3, Token EOF ''EOF'' 1 4])"
  by code_simp

text \<open>
  C4. Every token should carry the line and column of its first character, also after a
  lone \<open>/\<close> at column 1 of a later line. The code does otherwise: on the source made of a
  newline, \<open>/\<close> and \<open>;\<close> the token \<open>;\<close>, which stands at line 2, column 2, is emitted with
  line 1, column 3, and the final \<open>EOF\<close> with line 1, column 4.
\<close>

theorem lone_slash_at_column_1_loses_position:
  "tokenize (Lexer_new [CHR 0x0A, CHR ''/'', CHR '';'']) =
     Some (Inr [Token SLASH ''/'' 2 1, Token SEMICOLON '';'' 1 3, Token EOF ''EOF'' 1 4])"
  by code_simp

text \<open>
  C5. A lexeme that is not an entry of the keyword table should be emitted with kind
  \<open>IDENTIFIER\<close>, also when it is spelled \<open>toString\<close>. The code does otherwise: on
  \<open>toString;\<close> the first token's type is the member of \<open>Object.prototype\<close> of that name.
\<close>

theorem toString_is_not_IDENTIFIER:
  "tokenize (Lexer_new ''toString;'') =
     Some (Inr [Token (ObjectPrototypeMember ''toString'') ''toString'' 1 1,
                Token SEMICOLON '';'' 1 9, Token EOF ''EOF'' 1 10])"
  by code_simp

text \<open>
  C6. String literals are taken verbatim. When \<open>nextToken\<close> is called and the input not
  yet consumed is whitespace, a double quote, any characters \<open>content\<close> without a double
  quote (backslashes and newlines included), and a closing double quote, it adds one
  \<open>STRING\<close> token whose value is exactly \<open>content\<close>, positioned at the opening quote, and
  stops right after the closing quote.
\<close>

theorem string_literal_verbatim:
  assumes "remaining L = ws @ [CHR 0x22] @ content @ [CHR 0x22] @ r"
    and "\<forall>w\<in>set ws. isWhitespace (JsChar w)"
    and "CHR 0x22 \<notin> set content"
  shows "nextToken L =
    Some (Inr (addToken STRING content
                 (line (advanced (length ws) L)) (column (advanced (length ws) L))
                 (advanced (length ws + length content + 2) L)))"
proof -
  let ?L' = "advanced (length ws) L"
  let ?L1 = "snd (advance ?L')"
  from assms(1) have r: "remaining L = ws @ CHR 0x22 # (content @ CHR 0x22 # r)" by simp
  have rem: "remaining ?L' = CHR 0x22 # (content @ CHR 0x22 # r)"
    by (rule advanced_remaining [OF r])
  have q: "fst (advance ?L') = JsChar (CHR 0x22)"
    by (rule advance_Cons(1) [OF rem])
  have rem1: "remaining ?L1 = content @ CHR 0x22 # r"
    by (rule advance_Cons(2) [OF rem])
  have chars: "readString_chars ?L1 [] = (advanced (length content) ?L1, content)"
    using readString_chars_content [OF rem1 assms(3), of "[]"] by simp
  have "remaining (advanced (length content) ?L1) = CHR 0x22 # r"
    by (rule advanced_remaining [OF rem1])
  then have pk: "peek (advanced (length content) ?L1) = JsChar (CHR 0x22)"
    by (simp add: peek_remaining)
  have st: "snd (advance (advanced (length content) ?L1)) = advanced (length ws + length content + 2) L"
    by (simp add: advanced_Suc_right advanced_add [symmetric])
  have "readString ?L' =
    Inr (addToken STRING content (line ?L') (column ?L') (advanced (length ws + length content + 2) L))"
    by (simp add: readString_def Let_def q chars pk st)
  then show ?thesis
    using nextToken_at [OF r assms(2)] by (simp add: Let_def)
qed

text \<open>
  At a concrete source: a space, then a literal holding \<open>a\<close>, a backslash and a newline.
  The backslash does not keep the following quote from closing the literal.
\<close>

theorem string_literal_verbatim_witness:
  "nextToken (Lexer_new [CHR '' '', CHR 0x22, CHR ''a'', CHR 0x5C, CHR 0x0A, CHR 0x22, CHR '';'']) =
     Some (Inr \<lparr>source = [CHR '' '', CHR 0x22, CHR ''a'', CHR 0x5C, CHR 0x0A, CHR 0x22, CHR '';''],
                currentPos = 6, line = 2, column = 2,
                tokens = [Token STRING [CHR ''a'', CHR 0x5C, CHR 0x0A] 1 2]\<rparr>)"
  using string_literal_verbatim
    [where L = "Lexer_new [CHR '' '', CHR 0x22, CHR ''a'', CHR 0x5C, CHR 0x0A, CHR 0x22, CHR '';'']"
       and ws = "'' ''" and content = "[CHR ''a'', CHR 0x5C, CHR 0x0A]" and r = "'';''"]
  by (simp add: witness_eval)

text \<open>
  C7. An unterminated string literal should make \<open>tokenize\<close> fail with the error
  \<open>Unterminated string literal\<close> carrying the line and column of the opening quote. The
  code does otherwise: on the source made of a newline, \<open>/\<close>, a double quote and \<open>a\<close>,
  the quote stands at line 2, column 2, and the error carries line 1, column 3.
\<close>

theorem unterminated_string_after_lone_slash_wrong_position:
  "tokenize (Lexer_new [CHR 0x0A, CHR ''/'', CHR 0x22, CHR ''a'']) =
     Some (Inl (LexerError ''Unterminated string literal'' 1 3)) \<and>
   line_at [CHR 0x0A, CHR ''/'', CHR 0x22, CHR ''a''] 2 = 2 \<and>
   column_at [CHR 0x0A, CHR ''/'', CHR 0x22, CHR ''a''] 2 = 2"
  by code_simp

text \<open>
  C8. A character that matches no rule should make \<open>tokenize\<close> fail with the error
  \<open>Unexpected character\<close> carrying that character's line and column. The code does
  otherwise: on the source made of a newline, \<open>/\<close> and \<open>#\<close>, the character \<open>#\<close> stands at
  line 2, column 2, and the error carries line 1, column 3.
\<close>

theorem unexpected_character_after_lone_slash_wrong_position:
  "tokenize (Lexer_new [CHR 0x0A, CHR ''/'', CHR ''#'']) =
     Some (Inl (LexerError (''Unexpected character '' @ [CHR 0x27, CHR ''#'', CHR 0x27]) 1 3)) \<and>
   line_at [CHR 0x0A, CHR ''/'', CHR ''#''] 2 = 2 \<and>
   column_at [CHR 0x0A, CHR ''/'', CHR ''#''] 2 = 2"
  by code_simp

text \<open>
  C9. For all identifiers \<open>x\<close> and \<open>y\<close> the text \<open>x-y\<close> should lex as the single token
  \<open>IDENTIFIER\<close> with value \<open>x-y\<close>. The code does otherwise: on the source \<open>a-b\<close> the loop
  of \<open>readIdentifierOrKeyword\<close> absorbs the hyphen and \<open>b\<close>, reaches the end of input and
  never exits, so neither \<open>nextToken\<close> nor \<open>tokenize\<close> returns and no token is produced.
\<close>

theorem hyphenated_identifier_at_end_diverges:
  "nextToken (Lexer_new ''a-b'') = None \<and> tokenize (Lexer_new ''a-b'') = None"
proof -
  have "readIdentifier_chars \<lparr>source = ''a-b'', currentPos = 0, line = 1, column = 1, tokens = []\<rparr> [] = None"
    by (rule readIdentifier_chars_to_end [where x = "''a-b''"])
       (simp_all add: remaining_def isAlphaNumeric_def)
  then show ?thesis
    by (simp add: lexer_eval)
qed

text \<open>
  C10. A \<open>//\<close> comment that runs to the end of input without a newline is not an error.
  When the input not yet consumed is whitespace and such a comment, \<open>tokenize\<close> returns
  normally; no token is added for the comment, the tokens returned are the ones already
  there followed by the end-of-input tokens (two of them, as after trailing whitespace).
\<close>

theorem line_comment_at_end_of_input:
  assumes "remaining L = ws @ ''//'' @ cmt"
    and "\<forall>w\<in>set ws. isWhitespace (JsChar w)"
    and "CHR 0x0A \<notin> set cmt"
  shows "tokenize L =
    Some (Inr (tokens L @
      [Token EOF ''EOF'' (line (advanced (length ws + 2 + length cmt) L))
                         (column (advanced (length ws + 2 + length cmt) L)),
       Token EOF ''EOF'' (line (advanced (length ws + 2 + length cmt) L))
                         (column (advanced (length ws + 2 + length cmt) L))]))"
proof -
  let ?L' = "advanced (length ws) L"
  let ?L1 = "snd (advance ?L')"
  let ?L2 = "snd (advance ?L1)"
  let ?Le = "advanced (length ws + 2 + length cmt) L"
  from assms(1) have r: "remaining L = ws @ CHR ''/'' # (CHR ''/'' # cmt)" by simp
  have sk: "skipWhitespace L = ?L'"
    by (intro skipWhitespace_prefix [OF r assms(2)]) simp
  have rem: "remaining ?L' = CHR ''/'' # (CHR ''/'' # cmt)"
    by (rule advanced_remaining [OF r])
  from remaining_Cons_pos [OF rem] have pos': "\<not> length (source L) \<le> currentPos ?L'"
    by simp
  have pk: "peek ?L' = JsChar (CHR ''/'')"
    by (simp add: peek_remaining rem)
  have rem1: "remaining ?L1 = CHR ''/'' # cmt"
    by (rule advance_Cons(2) [OF rem])
  have pk1: "peek ?L1 = JsChar (CHR ''/'')"
    by (simp add: peek_remaining rem1)
  have rem2: "remaining ?L2 = cmt @ []"
    using advance_Cons(2) [OF rem1] by simp
  have st: "advanced (length cmt) ?L2 = ?Le"
    by (simp add: advanced_Suc_right advanced_add [symmetric])
  have ln: "readComment_line ?L2 = ?Le"
    using readComment_line_text [OF rem2 assms(3)] st by simp
  have reme: "remaining ?Le = []"
    using advanced_remaining [OF rem2] st by simp
  have rc: "readComment ?L' = Inr (True, ?Le)"
    by (simp add: readComment_def Let_def pk pk1 ln)
  have "nextToken L = nextToken ?Le"
    by (subst nextToken.simps) (simp add: sk pos' rc Let_def)
  with nextToken_at_end [OF reme]
  have n: "nextToken L = Some (Inr (addToken EOF ''EOF'' (line ?Le) (column ?Le) ?Le))"
    by simp
  from remaining_Cons_pos [of L] r have pos: "currentPos L < length (source L)"
    by (cases ws) auto
  from reme have pe: "\<not> currentPos ?Le < length (source L)"
    by (simp add: remaining_def)
  have "tokenize_loop L = Some (Inr (addToken EOF ''EOF'' (line ?Le) (column ?Le) ?Le))"
    using pe by (subst tokenize_loop.simps, simp add: pos n, subst tokenize_loop.simps)
      (simp add: addToken_def)
  then show ?thesis
    by (simp add: tokenize_def addToken_def)
qed

text \<open>At a concrete source: a space and the comment \<open>//c\<close>.\<close>

theorem line_comment_at_end_of_input_witness:
  "tokenize (Lexer_new '' //c'') = Some (Inr [Token EOF ''EOF'' 1 5, Token EOF ''EOF'' 1 5])"
  using line_comment_at_end_of_input [where L = "Lexer_new '' //c''" and ws = "'' ''" and cmt = "''c''"]
  by (simp add: witness_eval)

end
